theory Spec2Isabelle
  imports Complex_Main "HOL-Library.Word" "HOL-Library.AList" "HOL-Library.Multiset"
begin

section \<open>JavaScript strings and the UTF-8 encoder\<close>

text \<open>
  A JavaScript string is a sequence of UTF-16 code units: \<open>str.length\<close> counts code
  units and \<open>str.substring\<close> cuts between code units. A character outside the Basic
  Multilingual Plane is a surrogate pair, two code units.
\<close>

type_synonym jsstring = "16 word list"

text \<open>An ASCII literal of the source, as a JavaScript string.\<close>

definition js :: "string \<Rightarrow> jsstring" where
  "js s = map (\<lambda>c. of_nat (of_char c)) s"

definition is_high :: "16 word \<Rightarrow> bool" where
  "is_high u = (0xD800 \<le> u \<and> u \<le> 0xDBFF)"

definition is_low :: "16 word \<Rightarrow> bool" where
  "is_low u = (0xDC00 \<le> u \<and> u \<le> 0xDFFF)"

text \<open>
  \<open>new TextEncoder().encode(s)\<close>: the string is first converted to scalar values
  (a high surrogate followed by a low surrogate is one code point, any other surrogate
  is replaced by U+FFFD), then each scalar value is written in UTF-8.
\<close>

fun code_points :: "jsstring \<Rightarrow> nat list" where
  "code_points [] = []"
| "code_points [u] = (if is_high u \<or> is_low u then [0xFFFD] else [unat u])"
| "code_points (u # v # us) =
     (if is_high u \<and> is_low v
      then (0x10000 + (unat u - 0xD800) * 0x400 + (unat v - 0xDC00)) # code_points us
      else if is_high u \<or> is_low u then 0xFFFD # code_points (v # us)
      else unat u # code_points (v # us))"

definition utf8 :: "nat \<Rightarrow> 8 word list" where
  "utf8 c =
     (if c < 0x80 then [of_nat c]
      else if c < 0x800 then [of_nat (0xC0 + c div 64), of_nat (0x80 + c mod 64)]
      else if c < 0x10000 then
        [of_nat (0xE0 + c div 4096), of_nat (0x80 + (c div 64) mod 64), of_nat (0x80 + c mod 64)]
      else
        [of_nat (0xF0 + c div 262144), of_nat (0x80 + (c div 4096) mod 64),
         of_nat (0x80 + (c div 64) mod 64), of_nat (0x80 + c mod 64)])"

definition encode :: "jsstring \<Rightarrow> 8 word list" where
  "encode s = concat (map utf8 (code_points s))"

text \<open>
  \<open>s.substring(a, b)\<close>: both indices are clamped to the length of the string and
  swapped when the first is the larger. Indices are never negative in this program.
\<close>

definition substring :: "'a list \<Rightarrow> nat \<Rightarrow> nat \<Rightarrow> 'a list" where
  "substring s a b =
     (let a' = min a (length s); b' = min b (length s)
      in take (max a' b' - min a' b') (drop (min a' b') s))"

text \<open>\<open>s.includes(t)\<close>: \<open>t\<close> occurs in \<open>s\<close> as a contiguous run.\<close>

fun startsWith :: "'a list \<Rightarrow> 'a list \<Rightarrow> bool" where
  "startsWith s [] = True"
| "startsWith [] (y # ys) = False"
| "startsWith (x # xs) (y # ys) = (x = y \<and> startsWith xs ys)"

fun str_includes :: "'a list \<Rightarrow> 'a list \<Rightarrow> bool" where
  "str_includes [] t = (t = [])"
| "str_includes (x # xs) t = (startsWith (x # xs) t \<or> str_includes xs t)"

section \<open>chunk-utils.ts\<close>

definition MAX_MESSAGE_SIZE :: nat where
  "MAX_MESSAGE_SIZE = 1024 * 1024"

definition CHUNK_SIZE :: nat where
  "CHUNK_SIZE = 768 * 1024"

subsection \<open>safeStringChunk\<close>

datatype error = SingleCharacterExceedsMaxBytes nat

text \<open>
  The inner loop of \<open>safeStringChunk\<close>: a binary search on the number of code units
  \<open>mid\<close> of the prefix \<open>str.substring(currentIndex, currentIndex + mid)\<close>, by the
  length of its encoding. \<open>left\<close>, \<open>right\<close> and \<open>bestLength\<close> are the loop's
  variables. The source computes \<open>right = mid - 1\<close> on numbers: where \<open>mid\<close> is 0 the
  new \<open>right\<close> is -1, below every \<open>left\<close>, and the loop ends.
\<close>

function bestLengthSearch :: "jsstring \<Rightarrow> nat \<Rightarrow> nat \<Rightarrow> nat \<Rightarrow> nat \<Rightarrow> nat \<Rightarrow> nat" where
  "bestLengthSearch str maxBytes currentIndex left right bestLength =
     (if left \<le> right then
        let mid = (left + right) div 2;
            testChunk = substring str currentIndex (currentIndex + mid);
            encoded = encode testChunk
        in if length encoded \<le> maxBytes
           then bestLengthSearch str maxBytes currentIndex (mid + 1) right mid
           else if mid = 0 then bestLength
           else bestLengthSearch str maxBytes currentIndex left (mid - 1) bestLength
      else bestLength)"
  by pat_completeness auto
termination
  by (relation "measure (\<lambda>(str, maxBytes, currentIndex, left, right, bestLength). right + 1 - left)")
     auto

declare bestLengthSearch.simps [simp del]

text \<open>
  The outer loop, with the list \<open>chunks\<close> built so far. The \<open>throw\<close> of the source
  is the value \<open>Inl\<close>.
\<close>

function safeStringChunk_loop ::
  "jsstring \<Rightarrow> nat \<Rightarrow> nat \<Rightarrow> jsstring list \<Rightarrow> error + jsstring list" where
  "safeStringChunk_loop str maxBytes currentIndex chunks =
     (if currentIndex < length str then
        let remaining = substring str currentIndex (length str);
            remainingBytes = encode remaining
        in if length remainingBytes \<le> maxBytes then Inr (chunks @ [remaining])
           else
             let left = 1;
                 right = min (length str - currentIndex) maxBytes;
                 bestLength = bestLengthSearch str maxBytes currentIndex left right 1;
                 chunk = substring str currentIndex (currentIndex + bestLength)
             in if bestLength = 0 then Inl (SingleCharacterExceedsMaxBytes maxBytes)
                else safeStringChunk_loop str maxBytes (currentIndex + bestLength) (chunks @ [chunk])
      else Inr chunks)"
  by pat_completeness auto
termination
  by (relation "measure (\<lambda>(str, maxBytes, currentIndex, chunks). length str - currentIndex)")
     auto

declare safeStringChunk_loop.simps [simp del]

definition safeStringChunk :: "jsstring \<Rightarrow> nat \<Rightarrow> error + jsstring list" where
  "safeStringChunk str maxBytes = safeStringChunk_loop str maxBytes 0 []"

subsection \<open>types.ts\<close>

datatype MessageType =
  Request | Response | Chunk | ChunkComplete | SseStart | SseChunk | SseEnd | Ping | Pong

text \<open>
  An object of type \<open>Record<string, string>\<close> is a list of properties in insertion
  order. The fields of the interfaces carry a prefix where two interfaces share a name.
\<close>

type_synonym headers = "(jsstring \<times> jsstring) list"

record ProxyRequest =
  req_id :: jsstring
  req_method :: jsstring
  req_path :: jsstring
  req_headers :: headers
  req_body :: "jsstring option"

record ProxyResponse =
  res_id :: jsstring
  res_status :: int
  res_headers :: headers
  res_body :: jsstring
  res_isBase64 :: "bool option"

record ChunkData =
  messageId :: jsstring
  chunkIndex :: nat
  totalChunks :: nat
  chunk :: jsstring
  originalType :: MessageType

record SSEStartData =
  sse_start_requestId :: jsstring
  sse_start_status :: int
  sse_start_headers :: headers

record SSEChunkData =
  sse_chunk_requestId :: jsstring
  sse_chunk :: jsstring

record SSEEndData =
  sse_end_requestId :: jsstring
  sse_end_reason :: "jsstring option"

datatype MessageData =
  RequestData ProxyRequest
| ResponseData ProxyResponse
| ChunkPayload ChunkData
| SSEStartPayload SSEStartData
| SSEChunkPayload SSEChunkData
| SSEEndPayload SSEEndData
| PingPayload int

record WebSocketMessage =
  msg_type :: MessageType
  msg_data :: "MessageData option"
  msg_timestamp :: "int option"

subsection \<open>MessageChunker: the outbound side\<close>

text \<open>
  \<open>JSON.stringify\<close> and \<open>JSON.parse\<close> are built-ins of the platform, not code of
  this program: the functions that call them take them as the parameters
  \<open>stringify\<close> and \<open>parse\<close> (\<open>parse s = None\<close> where \<open>JSON.parse\<close> throws).
\<close>

definition needsChunking :: "jsstring \<Rightarrow> bool" where
  "needsChunking message = (length (encode message) > MAX_MESSAGE_SIZE)"

definition chunkFrame :: "jsstring \<Rightarrow> nat \<Rightarrow> nat \<Rightarrow> jsstring \<Rightarrow> MessageType \<Rightarrow> WebSocketMessage" where
  "chunkFrame mid i n c t =
     \<lparr>msg_type = Chunk,
      msg_data = Some (ChunkPayload
        \<lparr>messageId = mid, chunkIndex = i, totalChunks = n, chunk = c, originalType = t\<rparr>),
      msg_timestamp = None\<rparr>"

definition chunkMessage ::
  "(WebSocketMessage \<Rightarrow> jsstring) \<Rightarrow> WebSocketMessage \<Rightarrow> jsstring \<Rightarrow> error + WebSocketMessage list" where
  "chunkMessage stringify originalMessage mid =
     (let messageString = stringify originalMessage
      in if \<not> needsChunking messageString then Inr [originalMessage]
         else
           case safeStringChunk messageString CHUNK_SIZE of
             Inl e \<Rightarrow> Inl e
           | Inr chunks \<Rightarrow>
               Inr (map (\<lambda>i. chunkFrame mid i (length chunks) (chunks ! i) (msg_type originalMessage))
                      [0..<length chunks]))"

subsection \<open>MessageChunker: the inbound side\<close>

text \<open>
  An entry of the map \<open>this.chunks\<close>. The array \<open>chunks\<close> of an entry may have holes
  (\<open>new Array(totalChunks)\<close> is all holes): a slot is \<open>None\<close> or a string.
\<close>

record Assembly =
  a_chunks :: "jsstring option list"
  a_totalChunks :: nat
  a_originalType :: MessageType
  receivedChunks :: nat
  createdAt :: int

text \<open>
  A JavaScript \<open>Map\<close> keeps its entries in insertion order: \<open>set\<close> replaces the value
  of a key in place or appends a new entry (\<open>AList.update\<close>), \<open>delete\<close> removes the
  entry (\<open>AList.delete\<close>), \<open>get\<close> is \<open>map_of\<close>.
\<close>

type_synonym ChunkTable = "(jsstring \<times> Assembly) list"

text \<open>\<open>arr[i] = v\<close>: an index at or beyond the length extends the array with holes.\<close>

definition array_set :: "'a option list \<Rightarrow> nat \<Rightarrow> 'a \<Rightarrow> 'a option list" where
  "array_set arr i v =
     (if i < length arr then arr[i := Some v]
      else arr @ replicate (i - length arr) None @ [Some v])"

text \<open>\<open>arr.join('')\<close>: a hole contributes the empty string.\<close>

definition join :: "jsstring option list \<Rightarrow> jsstring" where
  "join arr = concat (map (\<lambda>c. case c of None \<Rightarrow> [] | Some s \<Rightarrow> s) arr)"

text \<open>
  \<open>cleanup(maxAge, maxEntries)\<close> at the clock reading \<open>now\<close>; the result is the number
  of entries removed and the table. \<open>Array.prototype.sort\<close> is stable, as \<open>sort_key\<close> is.
\<close>

definition cleanup :: "int \<Rightarrow> int \<Rightarrow> nat \<Rightarrow> ChunkTable \<Rightarrow> nat \<times> ChunkTable" where
  "cleanup now maxAge maxEntries tbl =
     (let entriesToRemove =
            map fst (filter (\<lambda>(k, messageInfo). now - createdAt messageInfo > maxAge) tbl);
          tbl1 = fold AList.delete entriesToRemove tbl;
          removedCount = length entriesToRemove
      in if length tbl1 > maxEntries then
           let sortedEntries = sort_key (\<lambda>(k, messageInfo). createdAt messageInfo) tbl1;
               excessCount = length tbl1 - maxEntries;
               victims = map fst (take excessCount sortedEntries)
           in (removedCount + excessCount, fold AList.delete victims tbl1)
         else (removedCount, tbl1))"

text \<open>
  \<open>receiveChunk(chunkData)\<close>. \<open>rnd\<close> is the outcome of \<open>Math.random() < 0.1\<close> and
  \<open>now\<close> the reading of \<open>Date.now()\<close> during the call. The result is the table after
  the call and the value returned (\<open>None\<close> for \<open>null\<close>). Both the \<open>try\<close> and the
  \<open>catch\<close> branch delete the entry; the \<open>catch\<close> branch returns \<open>null\<close>.
\<close>

definition receiveChunk ::
  "(jsstring \<Rightarrow> WebSocketMessage option) \<Rightarrow> bool \<Rightarrow> int \<Rightarrow> ChunkData \<Rightarrow> ChunkTable
     \<Rightarrow> ChunkTable \<times> WebSocketMessage option" where
  "receiveChunk parse rnd now chunkData tbl =
     (let tbl1 = (if rnd then snd (cleanup now 30000 100 tbl) else tbl);
          tbl2 = (if map_of tbl1 (messageId chunkData) = None
                  then AList.update (messageId chunkData)
                         \<lparr>a_chunks = replicate (totalChunks chunkData) None,
                          a_totalChunks = totalChunks chunkData,
                          a_originalType = originalType chunkData,
                          receivedChunks = 0,
                          createdAt = now\<rparr> tbl1
                  else tbl1)
      in case map_of tbl2 (messageId chunkData) of
           None \<Rightarrow> (tbl2, None)
         | Some messageInfo \<Rightarrow>
             let messageInfo' = messageInfo
                   \<lparr>a_chunks := array_set (a_chunks messageInfo) (chunkIndex chunkData) (chunk chunkData),
                    receivedChunks := receivedChunks messageInfo + 1\<rparr>;
                 tbl3 = AList.update (messageId chunkData) messageInfo' tbl2
             in if receivedChunks messageInfo' = totalChunks chunkData
                then (AList.delete (messageId chunkData) tbl3, parse (join (a_chunks messageInfo')))
                else (tbl3, None))"

definition clearAllChunks :: "ChunkTable \<Rightarrow> nat \<times> ChunkTable" where
  "clearAllChunks tbl = (length tbl, [])"

text \<open>
  The \<open>message\<close> handler of the WebSocket hands the data of every frame of type
  \<open>chunk\<close> to \<open>receiveChunk\<close>. \<open>deliver\<close> does so for a list of frames, each with the
  random draw and the clock reading of its call, and collects the values returned.
\<close>

fun deliver ::
  "(jsstring \<Rightarrow> WebSocketMessage option) \<Rightarrow> ChunkTable \<Rightarrow> ((bool \<times> int) \<times> WebSocketMessage) list
     \<Rightarrow> ChunkTable \<times> WebSocketMessage option list" where
  "deliver parse tbl [] = (tbl, [])"
| "deliver parse tbl (((rnd, now), frame) # rest) =
     (case msg_data frame of
        Some (ChunkPayload chunkData) \<Rightarrow>
          (let (tbl', r) = receiveChunk parse rnd now chunkData tbl;
               (tbl'', rs) = deliver parse tbl' rest
           in (tbl'', r # rs))
      | _ \<Rightarrow> (let (tbl'', rs) = deliver parse tbl rest in (tbl'', None # rs)))"

section \<open>tunnel.ts\<close>

subsection \<open>The state of a Tunnel\<close>

record TunnelOptions =
  opt_port :: nat
  opt_host :: "jsstring option"
  opt_subdomain :: "jsstring option"
  opt_localHost :: "jsstring option"
  opt_localHttps :: "bool option"
  opt_localCert :: "jsstring option"
  opt_localKey :: "jsstring option"
  opt_localCa :: "jsstring option"
  opt_allowInvalidCert :: "bool option"
  opt_timeout :: "real option"
  opt_maxRetries :: "nat option"

record TunnelInfo =
  info_id :: jsstring
  info_url :: jsstring
  info_cachedUrl :: "jsstring option"
  info_port :: nat

datatype ReadyState = CONNECTING | OPEN | CLOSING | CLOSED

record HealthCheckCache =
  isHealthy :: bool
  lastCheck :: int
  healthPath :: "jsstring option"

text \<open>
  What a call does to the world outside the object is recorded, in order, in the field
  \<open>trace\<close> of the state: the events emitted, the messages handed to
  \<open>websocket.send\<close>, the timers cleared, the timer set with \<open>setTimeout(..., 0)\<close>
  in \<open>close\<close>, and the calls that dial the origin
  (\<open>forwardToLocalServer\<close>, which probes the health of the origin first, and
  \<open>handleSSERequest\<close>).
\<close>

datatype event =
  EvUrl jsstring
| EvRequest jsstring jsstring headers
| EvError jsstring
| EvClose
| EvCircuitBreakerOpen nat int
| EvCircuitBreakerClosed

datatype effect =
  Emit event
| WsSend jsstring
| ClearTimeout nat
| ClearInterval nat
| ScheduleWsClose
| LocalServerClose
| ForwardToLocalServer ProxyRequest
| HandleSSERequest ProxyRequest

text \<open>
  The fields of the class. A timer is its handle; \<open>websocket\<close> is the \<open>readyState\<close>
  of the socket, or \<open>None\<close> for \<open>null\<close>; \<open>chunker\<close> is the table of the
  module-level \<open>messageChunker\<close>, which the tunnel shares.
\<close>

record Tunnel =
  options :: TunnelOptions
  tunnelInfo :: "TunnelInfo option"
  websocket :: "ReadyState option"
  closed :: bool
  reconnectTimeout :: "nat option"
  localServer :: bool
  reconnectAttempts :: nat
  keepAliveInterval :: "nat option"
  consecutiveErrors :: nat
  lastErrorTime :: int
  isCircuitOpen :: bool
  healthCheckCache :: HealthCheckCache
  chunker :: ChunkTable
  trace :: "effect list"

text \<open>
  The constructor: the field initialisers of the class, and
  \<open>{host: 'https://localrun.stream', localHost: 'localhost', ...options}\<close>. The
  spread replaces a default whenever the argument has the key, also when the value
  under the key is \<open>undefined\<close> (the command line passes every key): \<open>hasHost\<close> and
  \<open>hasLocalHost\<close> say whether the argument has the keys \<open>host\<close> and \<open>localHost\<close>.
\<close>

definition newTunnel :: "bool \<Rightarrow> bool \<Rightarrow> TunnelOptions \<Rightarrow> Tunnel" where
  "newTunnel hasHost hasLocalHost opts =
     \<lparr>options = opts
        \<lparr>opt_host := (if hasHost then opt_host opts else Some (js ''https://localrun.stream'')),
         opt_localHost := (if hasLocalHost then opt_localHost opts else Some (js ''localhost''))\<rparr>,
      tunnelInfo = None,
      websocket = None,
      closed = False,
      reconnectTimeout = None,
      localServer = False,
      reconnectAttempts = 0,
      keepAliveInterval = None,
      consecutiveErrors = 0,
      lastErrorTime = 0,
      isCircuitOpen = False,
      healthCheckCache = \<lparr>isHealthy = False, lastCheck = 0, healthPath = None\<rparr>,
      chunker = [],
      trace = []\<rparr>"

definition circuitBreakerThreshold :: nat where
  "circuitBreakerThreshold = 5"

definition circuitBreakerCooldown :: int where
  "circuitBreakerCooldown = 30000"

definition emit :: "event \<Rightarrow> Tunnel \<Rightarrow> Tunnel" where
  "emit e s = s\<lparr>trace := trace s @ [Emit e]\<rparr>"

subsection \<open>The circuit breaker\<close>

definition resetCircuitBreaker :: "Tunnel \<Rightarrow> Tunnel" where
  "resetCircuitBreaker s =
     (let wasOpen = isCircuitOpen s;
          s1 = s\<lparr>consecutiveErrors := 0, isCircuitOpen := False, lastErrorTime := 0\<rparr>
      in if wasOpen then emit EvCircuitBreakerClosed s1 else s1)"

text \<open>\<open>now\<close> is the reading of \<open>Date.now()\<close>.\<close>

definition isCircuitBreakerOpen :: "int \<Rightarrow> Tunnel \<Rightarrow> bool \<times> Tunnel" where
  "isCircuitBreakerOpen now s =
     (if \<not> isCircuitOpen s then (False, s)
      else if now - lastErrorTime s > circuitBreakerCooldown then (False, resetCircuitBreaker s)
      else (True, s))"

definition recordError :: "int \<Rightarrow> Tunnel \<Rightarrow> Tunnel" where
  "recordError now s =
     (let s1 = s\<lparr>consecutiveErrors := consecutiveErrors s + 1, lastErrorTime := now\<rparr>
      in if consecutiveErrors s1 \<ge> circuitBreakerThreshold \<and> \<not> isCircuitOpen s1
         then emit (EvCircuitBreakerOpen (consecutiveErrors s1) circuitBreakerCooldown)
                (s1\<lparr>isCircuitOpen := True\<rparr>)
         else s1)"

definition recordSuccess :: "Tunnel \<Rightarrow> Tunnel" where
  "recordSuccess s =
     (if consecutiveErrors s > 0 \<or> isCircuitOpen s then resetCircuitBreaker s else s)"

text \<open>A sequence of calls of \<open>recordError\<close> (each with its clock reading) and \<open>recordSuccess\<close>.\<close>

datatype breaker_call = RecordError int | RecordSuccess

fun breaker_calls :: "breaker_call list \<Rightarrow> Tunnel \<Rightarrow> Tunnel" where
  "breaker_calls [] s = s"
| "breaker_calls (RecordError now # cs) s = breaker_calls cs (recordError now s)"
| "breaker_calls (RecordSuccess # cs) s = breaker_calls cs (recordSuccess s)"

subsection \<open>sendResponse\<close>

text \<open>
  \<open>newId\<close> is the value of \<open>messageChunker.generateMessageId()\<close>. An exception of
  \<open>chunkMessage\<close> is caught and logged. \<open>websocket.send\<close> is taken not to throw.
\<close>

definition sendResponse ::
  "(WebSocketMessage \<Rightarrow> jsstring) \<Rightarrow> jsstring \<Rightarrow> ProxyResponse \<Rightarrow> Tunnel \<Rightarrow> Tunnel" where
  "sendResponse stringify newId response s =
     (if websocket s = Some OPEN then
        let message = \<lparr>msg_type = Response, msg_data = Some (ResponseData response),
                       msg_timestamp = None\<rparr>
        in case chunkMessage stringify message newId of
             Inl e \<Rightarrow> s
           | Inr chunkMessages \<Rightarrow>
               if length chunkMessages = 1
               then s\<lparr>trace := trace s @ [WsSend (stringify message)]\<rparr>
               else s\<lparr>trace := trace s @ map (\<lambda>chunkMessage. WsSend (stringify chunkMessage)) chunkMessages\<rparr>
      else s)"

subsection \<open>handleProxyRequest\<close>

text \<open>A number printed in decimal, as \<open>toString()\<close> and a template literal print an integer.\<close>

fun num_toString :: "nat \<Rightarrow> jsstring" where
  "num_toString n =
     (if n < 10 then [of_nat (48 + n)]
      else num_toString (n div 10) @ [of_nat (48 + n mod 10)])"

declare num_toString.simps [simp del]

text \<open>The object literals given to \<open>JSON.stringify\<close> for the body of an error response.\<close>

datatype json = JString jsstring | JNumber int | JObject "(jsstring \<times> json) list"

definition isSSERequest :: "ProxyRequest \<Rightarrow> bool" where
  "isSSERequest request =
     ((case map_of (req_headers request) (js ''accept'') of
         None \<Rightarrow> False
       | Some accept \<Rightarrow> str_includes accept (js ''text/event-stream'')) \<or>
      str_includes (req_path request) (js ''/sse'') \<or>
      map_of (req_headers request) (js ''cache-control'') = Some (js ''no-cache''))"

text \<open>What a \<open>catch\<close> clause receives: an \<open>Error\<close> with its message, or another value
  with its \<open>String(error)\<close>.\<close>

datatype thrown = ErrorObject jsstring | NonError jsstring

definition localServerName :: "TunnelOptions \<Rightarrow> jsstring" where
  "localServerName opts =
     (case opt_localHost opts of
        None \<Rightarrow> js ''localhost''
      | Some h \<Rightarrow> if h = [] then js ''localhost'' else h) @ js '':'' @ num_toString (opt_port opts)"

text \<open>The status, the message and the error type chosen in the \<open>catch\<close> clause.\<close>

definition classifyError :: "thrown \<Rightarrow> int \<times> jsstring \<times> jsstring" where
  "classifyError error =
     (case error of
        NonError v \<Rightarrow> (500, js ''Internal Server Error'', js ''unknown-error'')
      | ErrorObject message \<Rightarrow>
          if str_includes message (js ''timeout'') then
            (504, js ''Gateway Timeout - Local server did not respond in time'', js ''timeout'')
          else if str_includes message (js ''ECONNREFUSED'') then
            (502, js ''Bad Gateway - Local server is not running or not accepting connections'',
             js ''connection-refused'')
          else if str_includes message (js ''ENOTFOUND'') then
            (502, js ''Bad Gateway - Local server host not found'', js ''host-not-found'')
          else if str_includes message (js ''ECONNRESET'') then
            (502, js ''Bad Gateway - Connection was reset by local server'', js ''connection-reset'')
          else if str_includes message (js ''ENETUNREACH'') \<or> str_includes message (js ''EHOSTUNREACH'') then
            (502, js ''Bad Gateway - Local server network unreachable'', js ''network-unreachable'')
          else (500, js ''Internal Server Error'', js ''unknown-error''))"

text \<open>
  What the world supplies during one call of \<open>handleProxyRequest\<close>: the reading of
  \<open>Date.now()\<close> at the circuit-breaker check and in \<open>recordError\<close>, the value of
  \<open>new Date().toISOString()\<close>, the message id generated in \<open>sendResponse\<close>, and
  how the awaited call (\<open>forwardToLocalServer\<close> or \<open>handleSSERequest\<close>) ended:
  \<open>Inl\<close> what it threw, \<open>Inr\<close> the response it resolved with (\<open>handleSSERequest\<close>
  resolves with no value: its response is not looked at). The call is taken to run
  without other calls in between.
\<close>

record Env =
  env_now :: int
  env_now_error :: int
  env_iso :: jsstring
  env_newId :: jsstring
  env_outcome :: "thrown + ProxyResponse"

definition circuitOpenResponse :: "(json \<Rightarrow> jsstring) \<Rightarrow> Env \<Rightarrow> ProxyRequest \<Rightarrow> ProxyResponse" where
  "circuitOpenResponse stringifyObj env request =
     \<lparr>res_id = req_id request,
      res_status = 503,
      res_headers =
        [(js ''Content-Type'', js ''application/json''),
         (js ''X-Error-Type'', js ''circuit-breaker-open''),
         (js ''Retry-After'', num_toString (nat \<lceil>real_of_int circuitBreakerCooldown / 1000\<rceil>))],
      res_body = stringifyObj (JObject
        [(js ''error'', JString (js ''Service temporarily unavailable - Local server appears to be down'')),
         (js ''errorType'', JString (js ''circuit-breaker-open'')),
         (js ''requestId'', JString (req_id request)),
         (js ''retryAfterSeconds'', JNumber \<lceil>real_of_int circuitBreakerCooldown / 1000\<rceil>),
         (js ''timestamp'', JString (env_iso env))]),
      res_isBase64 = None\<rparr>"

definition forwardErrorResponse ::
  "(json \<Rightarrow> jsstring) \<Rightarrow> Env \<Rightarrow> TunnelOptions \<Rightarrow> ProxyRequest \<Rightarrow> thrown \<Rightarrow> ProxyResponse" where
  "forwardErrorResponse stringifyObj env opts request error =
     (let (status, message, errorType) = classifyError error
      in \<lparr>res_id = req_id request,
          res_status = status,
          res_headers =
            [(js ''Content-Type'', js ''application/json''),
             (js ''X-Error-Type'', errorType),
             (js ''X-Local-Server'', localServerName opts)],
          res_body = stringifyObj (JObject
            [(js ''error'', JString message),
             (js ''errorType'', JString errorType),
             (js ''requestId'', JString (req_id request)),
             (js ''localServer'', JString (localServerName opts)),
             (js ''timestamp'', JString (env_iso env)),
             (js ''details'', JString (case error of ErrorObject m \<Rightarrow> m | NonError v \<Rightarrow> v))]),
          res_isBase64 = None\<rparr>)"

definition handleProxyRequest ::
  "(WebSocketMessage \<Rightarrow> jsstring) \<Rightarrow> (json \<Rightarrow> jsstring) \<Rightarrow> Env \<Rightarrow> ProxyRequest \<Rightarrow> Tunnel \<Rightarrow> Tunnel" where
  "handleProxyRequest stringify stringifyObj env request s =
     (let (isOpen, s1) = isCircuitBreakerOpen (env_now env) s
      in if isOpen then
           sendResponse stringify (env_newId env) (circuitOpenResponse stringifyObj env request) s1
         else
           let s2 = emit (EvRequest (req_method request) (req_path request) (req_headers request)) s1;
               s3 = (if isSSERequest request
                     then s2\<lparr>trace := trace s2 @ [HandleSSERequest request]\<rparr>
                     else s2\<lparr>trace := trace s2 @ [ForwardToLocalServer request]\<rparr>)
           in case env_outcome env of
                Inr response \<Rightarrow>
                  if isSSERequest request then recordSuccess s3
                  else sendResponse stringify (env_newId env) response (recordSuccess s3)
              | Inl error \<Rightarrow>
                  sendResponse stringify (env_newId env)
                    (forwardErrorResponse stringifyObj env (options s) request error)
                    (recordError (env_now_error env) s3))"

subsection \<open>The adaptive timeout of forwardToLocalServer\<close>









subsection \<open>close\<close>

definition close :: "Tunnel \<Rightarrow> Tunnel" where
  "close s =
     (let s1 = resetCircuitBreaker (s\<lparr>closed := True\<rparr>);
          s2 = s1\<lparr>healthCheckCache := \<lparr>isHealthy = False, lastCheck = 0, healthPath = None\<rparr>\<rparr>;
          s3 = (case reconnectTimeout s2 of
                  None \<Rightarrow> s2
                | Some t \<Rightarrow> s2\<lparr>reconnectTimeout := None, trace := trace s2 @ [ClearTimeout t]\<rparr>);
          s4 = (case keepAliveInterval s3 of
                  None \<Rightarrow> s3
                | Some t \<Rightarrow> s3\<lparr>keepAliveInterval := None, trace := trace s3 @ [ClearInterval t]\<rparr>);
          s5 = (case websocket s4 of
                  None \<Rightarrow> s4
                | Some readyState \<Rightarrow>
                    (if readyState = OPEN \<or> readyState = CONNECTING
                     then s4\<lparr>trace := trace s4 @ [ScheduleWsClose]\<rparr>
                     else s4)\<lparr>websocket := None\<rparr>);
          s6 = (if localServer s5
                then s5\<lparr>localServer := False, trace := trace s5 @ [LocalServerClose]\<rparr>
                else s5);
          s7 = s6\<lparr>chunker := snd (clearAllChunks (chunker s6))\<rparr>
      in emit EvClose s7)"

section \<open>Example inputs\<close>

text \<open>
  A response frame with a body of 1 MiB of the letter a, and its serialization by
  \<open>JSON.stringify\<close>; a small frame and its serialization.
\<close>

definition ex_response :: ProxyResponse where
  "ex_response = \<lparr>res_id = js ''r1'', res_status = 200, res_headers = [],
                   res_body = replicate 1048576 0x61, res_isBase64 = Some False\<rparr>"

definition ex_big_frame :: WebSocketMessage where
  "ex_big_frame = \<lparr>msg_type = Response, msg_data = Some (ResponseData ex_response), msg_timestamp = None\<rparr>"

definition ex_big_json :: jsstring where
  \<open>ex_big_json =
     js ''{"type":"response","data":{"id":"r1","status":200,"headers":{},"body":"'' @
     replicate 1048576 0x61 @ js ''","isBase64":false}}''\<close>

definition ex_small_frame :: WebSocketMessage where
  "ex_small_frame = \<lparr>msg_type = Pong, msg_data = None, msg_timestamp = Some 1700000000000\<rparr>"

definition ex_small_json :: jsstring where
  \<open>ex_small_json = js ''{"type":"pong","timestamp":1700000000000}''\<close>

text \<open>
  The options that \<open>lr --port 3000\<close> passes (every key, \<open>undefined\<close> for an option
  that was not given, and the defaults of \<open>host\<close>, \<open>timeout\<close> and
  \<open>max-retries\<close>), and the tunnel constructed from them.
\<close>

definition ex_options :: TunnelOptions where
  "ex_options =
     \<lparr>opt_port = 3000, opt_host = Some (js ''https://localrun.stream''), opt_subdomain = None,
      opt_localHost = None, opt_localHttps = None, opt_localCert = None, opt_localKey = None,
      opt_localCa = None, opt_allowInvalidCert = None, opt_timeout = Some 15000,
      opt_maxRetries = Some 2\<rparr>"

definition ex_tunnel :: Tunnel where
  "ex_tunnel = newTunnel True True ex_options"

text \<open>A request, the readings of one call of \<open>handleProxyRequest\<close>, and a tunnel
  with an open socket after five errors in a row.\<close>

definition ex_request :: ProxyRequest where
  "ex_request = \<lparr>req_id = js ''r1'', req_method = js ''GET'', req_path = js ''/ping'',
                  req_headers = [], req_body = None\<rparr>"








definition ex_env :: Env where
  "ex_env = \<lparr>env_now = 6000, env_now_error = 6100, env_iso = js ''2026-01-01T00:00:06.000Z'',
              env_newId = js ''1700000000000-abcdefghi'',
              env_outcome = Inl (ErrorObject (js ''connect ECONNREFUSED 127.0.0.1:3000''))\<rparr>"


text \<open>
  A serializer for the witnesses: it prints response frames, chunk frames and the objects
  of the error bodies as \<open>JSON.stringify\<close> does when no string holds a character to
  escape other than the quote and the backslash.
\<close>

definition json_quote :: "jsstring \<Rightarrow> jsstring" where
  "json_quote s =
     [0x22] @ concat (map (\<lambda>u. if u = 0x22 \<or> u = 0x5C then [0x5C, u] else [u]) s) @ [0x22]"

fun json_members :: "(jsstring \<times> jsstring) list \<Rightarrow> jsstring" where
  "json_members [] = []"
| "json_members [(k, v)] = json_quote k @ [0x3A] @ v"
| "json_members ((k, v) # m # ms) = json_quote k @ [0x3A] @ v @ [0x2C] @ json_members (m # ms)"

definition json_object :: "(jsstring \<times> jsstring) list \<Rightarrow> jsstring" where
  "json_object ms = [0x7B] @ json_members ms @ [0x7D]"

fun ex_stringifyObj :: "json \<Rightarrow> jsstring" where
  "ex_stringifyObj (JString s) = json_quote s"
| "ex_stringifyObj (JNumber n) = (if n < 0 then [0x2D] @ num_toString (nat (- n)) else num_toString (nat n))"
| "ex_stringifyObj (JObject ms) = json_object (map (\<lambda>(k, v). (k, ex_stringifyObj v)) ms)"

definition ex_typeName :: "MessageType \<Rightarrow> jsstring" where
  "ex_typeName t =
     (case t of
        Request \<Rightarrow> js ''request'' | Response \<Rightarrow> js ''response'' | Chunk \<Rightarrow> js ''chunk''
      | ChunkComplete \<Rightarrow> js ''chunk_complete'' | SseStart \<Rightarrow> js ''sse-start''
      | SseChunk \<Rightarrow> js ''sse-chunk'' | SseEnd \<Rightarrow> js ''sse-end'' | Ping \<Rightarrow> js ''ping''
      | Pong \<Rightarrow> js ''pong'')"

definition ex_stringifyFrame :: "WebSocketMessage \<Rightarrow> jsstring" where
  "ex_stringifyFrame m =
     json_object
       ((js ''type'', json_quote (ex_typeName (msg_type m))) #
        (case msg_data m of
           Some (ResponseData r) \<Rightarrow>
             [(js ''data'', json_object
                ([(js ''id'', json_quote (res_id r)),
                  (js ''status'', ex_stringifyObj (JNumber (res_status r))),
                  (js ''headers'', json_object (map (\<lambda>(k, v). (k, json_quote v)) (res_headers r))),
                  (js ''body'', json_quote (res_body r))] @
                 (case res_isBase64 r of
                    None \<Rightarrow> []
                  | Some b \<Rightarrow> [(js ''isBase64'', if b then js ''true'' else js ''false'')])))]
         | Some (ChunkPayload c) \<Rightarrow>
             [(js ''data'', json_object
                [(js ''messageId'', json_quote (messageId c)),
                 (js ''chunkIndex'', num_toString (chunkIndex c)),
                 (js ''totalChunks'', num_toString (totalChunks c)),
                 (js ''chunk'', json_quote (chunk c)),
                 (js ''originalType'', json_quote (ex_typeName (originalType c)))])]
         | _ \<Rightarrow> []))"

text \<open>
  The response frame for the error of \<open>ex_env\<close> on \<open>ex_request\<close>, and its
  serialization.
\<close>

definition ex_error_frame :: WebSocketMessage where
  "ex_error_frame =
     \<lparr>msg_type = Response,
      msg_data = Some (ResponseData
        \<lparr>res_id = js ''r1'',
         res_status = 502,
         res_headers =
           [(js ''Content-Type'', js ''application/json''),
            (js ''X-Error-Type'', js ''connection-refused''),
            (js ''X-Local-Server'', js ''localhost:3000'')],
         res_body = ex_stringifyObj (JObject
           [(js ''error'', JString (js ''Bad Gateway - Local server is not running or not accepting connections'')),
            (js ''errorType'', JString (js ''connection-refused'')),
            (js ''requestId'', JString (js ''r1'')),
            (js ''localServer'', JString (js ''localhost:3000'')),
            (js ''timestamp'', JString (js ''2026-01-01T00:00:06.000Z'')),
            (js ''details'', JString (js ''connect ECONNREFUSED 127.0.0.1:3000''))]),
         res_isBase64 = None\<rparr>),
      msg_timestamp = None\<rparr>"

definition ex_error_json :: jsstring where
  \<open>ex_error_json =
     js ''{"type":"response","data":{"id":"r1","status":502,"headers":{"Content-Type":"application/json","X-Error-Type":"connection-refused","X-Local-Server":"localhost:3000"},"body":'' @
     json_quote (js ''{"error":"Bad Gateway - Local server is not running or not accepting connections","errorType":"connection-refused","requestId":"r1","localServer":"localhost:3000","timestamp":"2026-01-01T00:00:06.000Z","details":"connect ECONNREFUSED 127.0.0.1:3000"}'') @
     js ''}}''\<close>

text \<open>
  The message id of the examples, a parser that inverts the serialization of
  \<open>ex_big_frame\<close>, and the two chunk frames of \<open>ex_big_frame\<close>.
\<close>

definition ex_id :: jsstring where
  "ex_id = js ''1700000000000-abcdefghi''"



text \<open>
  A response frame whose body holds the character U+1F680 (the surrogate pair D83D DE80)
  after 786358 letters: in its serialization the pair starts at code unit 786429.
\<close>

definition ex_emoji_head :: jsstring where
  \<open>ex_emoji_head =
     js ''{"type":"response","data":{"id":"r2","status":200,"headers":{},"body":"'' @
     replicate 786358 0x61\<close>

definition ex_emoji_tail :: jsstring where
  \<open>ex_emoji_tail = replicate 262144 0x61 @ js ''","isBase64":false}}''\<close>

definition ex_emoji_json :: jsstring where
  "ex_emoji_json = ex_emoji_head @ [0xD83D, 0xDE80] @ ex_emoji_tail"

definition ex_emoji_frame :: WebSocketMessage where
  "ex_emoji_frame =
     \<lparr>msg_type = Response,
      msg_data = Some (ResponseData
        \<lparr>res_id = js ''r2'', res_status = 200, res_headers = [],
         res_body = replicate 786358 0x61 @ [0xD83D, 0xDE80] @ replicate 262144 0x61,
         res_isBase64 = Some False\<rparr>),
      msg_timestamp = None\<rparr>"

text \<open>What \<open>JSON.stringify\<close> returns for the frames above.\<close>

definition ex_stringify :: "WebSocketMessage \<Rightarrow> jsstring" where
  "ex_stringify m =
     (if m = ex_big_frame then ex_big_json
      else if m = ex_emoji_frame then ex_emoji_json
      else ex_small_json)"

text \<open>Two chunk frames of a message of two chunks.\<close>

definition ex_dup0 :: WebSocketMessage where
  \<open>ex_dup0 = chunkFrame (js ''m1'') 0 2 (js ''{"type":"response","da'') Response\<close>

definition ex_dup1 :: WebSocketMessage where
  \<open>ex_dup1 = chunkFrame (js ''m1'') 1 2 (js ''ta":{"id":"r1"}}'') Response\<close>

section \<open>Notions of the proofs\<close>


text \<open>A string of code units below 0x80: one byte each in UTF-8.\<close>

definition ascii :: "jsstring \<Rightarrow> bool" where
  "ascii s = list_all (\<lambda>u. u < 0x80) s"

section \<open>The splitter\<close>

lemma substring_take_drop: "substring s i (i + k) = take k (drop i s)"
  by (cases "i \<le> length s") (auto simp: substring_def Let_def min_def max_def)

lemma substring_to_end: "substring s i (length s) = drop i s"
  by (auto simp: substring_def Let_def min_def max_def)

lemma length_encode_single: "length (encode [u]) \<le> 3"
proof -
  have "unat u < 65536" using unsigned_less [of u, where ?'a = nat] by simp
  then show ?thesis by (simp add: encode_def utf8_def)
qed

lemma length_encode_take1: "length (encode (take 1 s)) \<le> 3"
proof (cases s)
  case Nil
  then show ?thesis by (simp add: encode_def)
next
  case (Cons u us)
  then show ?thesis using length_encode_single [of u] by simp
qed

lemma bestLengthSearch_result:
  "1 \<le> left \<Longrightarrow>
   bestLengthSearch str mb i left right best = best \<or>
   (left \<le> bestLengthSearch str mb i left right best \<and>
    bestLengthSearch str mb i left right best \<le> right \<and>
    length (encode (take (bestLengthSearch str mb i left right best) (drop i str))) \<le> mb)"
proof (induction str mb i left right best rule: bestLengthSearch.induct)
  case (1 str mb i left right best)
  let ?mid = "(left + right) div 2"
  show ?case
  proof (cases "left \<le> right")
    case False
    then show ?thesis by (subst bestLengthSearch.simps) simp
  next
    case lr: True
    show ?thesis
    proof (cases "length (encode (take ?mid (drop i str))) \<le> mb")
      case fit: True
      have eq: "bestLengthSearch str mb i left right best =
                bestLengthSearch str mb i (?mid + 1) right ?mid"
        using lr fit by (subst bestLengthSearch.simps) (simp add: Let_def substring_take_drop)
      have ih: "bestLengthSearch str mb i (?mid + 1) right ?mid = ?mid \<or>
        (?mid + 1 \<le> bestLengthSearch str mb i (?mid + 1) right ?mid \<and>
         bestLengthSearch str mb i (?mid + 1) right ?mid \<le> right \<and>
         length (encode (take (bestLengthSearch str mb i (?mid + 1) right ?mid) (drop i str))) \<le> mb)"
        using "1.IH"(1) [OF lr refl refl refl] fit by (simp add: substring_take_drop)
      from lr have "left \<le> ?mid" "?mid \<le> right" by auto
      with ih fit eq show ?thesis by auto
    next
      case nofit: False
      show ?thesis
      proof (cases "?mid = 0")
        case True
        then show ?thesis using lr nofit
          by (subst bestLengthSearch.simps) (simp add: Let_def substring_take_drop)
      next
        case m0: False
        have eq: "bestLengthSearch str mb i left right best =
                  bestLengthSearch str mb i left (?mid - 1) best"
          using lr nofit m0 by (subst bestLengthSearch.simps) (simp add: Let_def substring_take_drop)
        have ih: "bestLengthSearch str mb i left (?mid - 1) best = best \<or>
          (left \<le> bestLengthSearch str mb i left (?mid - 1) best \<and>
           bestLengthSearch str mb i left (?mid - 1) best \<le> ?mid - 1 \<and>
           length (encode (take (bestLengthSearch str mb i left (?mid - 1) best) (drop i str))) \<le> mb)"
          using "1.IH"(2) [OF lr refl refl refl _ m0] nofit "1.prems"
          by (simp add: substring_take_drop)
        from lr have "?mid - 1 \<le> right" by auto
        with ih eq show ?thesis by auto
      qed
    qed
  qed
qed

lemma bestLength_props:
  assumes "b = bestLengthSearch str mb i 1 right 1"
  shows "1 \<le> b" and "3 \<le> mb \<Longrightarrow> length (encode (take b (drop i str))) \<le> mb"
proof -
  from bestLengthSearch_result [of 1 str mb i right 1] assms
  have d: "b = 1 \<or> (1 \<le> b \<and> b \<le> right \<and> length (encode (take b (drop i str))) \<le> mb)"
    by simp
  then show "1 \<le> b" by auto
  assume "3 \<le> mb"
  with d length_encode_take1 [of "drop i str"] show "length (encode (take b (drop i str))) \<le> mb"
    by (auto simp del: One_nat_def)
qed

lemma loop_end: "\<not> i < length str \<Longrightarrow> safeStringChunk_loop str mb i cs = Inr cs"
  by (subst safeStringChunk_loop.simps) simp

lemma loop_done:
  "i < length str \<Longrightarrow> length (encode (drop i str)) \<le> mb \<Longrightarrow>
   safeStringChunk_loop str mb i cs = Inr (cs @ [drop i str])"
  by (subst safeStringChunk_loop.simps) (simp add: substring_to_end)

lemma loop_step:
  assumes "i < length str" and "\<not> length (encode (drop i str)) \<le> mb"
    and "b = bestLengthSearch str mb i 1 (min (length str - i) mb) 1"
  shows "safeStringChunk_loop str mb i cs =
         safeStringChunk_loop str mb (i + b) (cs @ [take b (drop i str)])"
proof -
  have "b \<noteq> 0" using bestLength_props(1) [OF assms(3)] by simp
  then show ?thesis using assms
    by (subst safeStringChunk_loop.simps) (simp add: substring_to_end substring_take_drop Let_def)
qed


lemma bestLength_le:
  assumes "b = bestLengthSearch str mb i 1 right 1"
  shows "b \<le> max 1 right"
  using bestLengthSearch_result [of 1 str mb i right 1] assms by auto

lemma loop_correct:
  "i \<le> length str \<Longrightarrow>
   \<exists>out. safeStringChunk_loop str mb i cs = Inr (cs @ out) \<and> concat out = drop i str \<and>
         (3 \<le> mb \<longrightarrow> (\<forall>c\<in>set out. length (encode c) \<le> mb))"
proof (induction "length str - i" arbitrary: i cs rule: less_induct)
  case less
  show ?case
  proof (cases "i < length str")
    case False
    with less.prems show ?thesis by (simp add: loop_end)
  next
    case lt: True
    show ?thesis
    proof (cases "length (encode (drop i str)) \<le> mb")
      case True
      with lt show ?thesis by (simp add: loop_done)
    next
      case False
      define b where "b = bestLengthSearch str mb i 1 (min (length str - i) mb) 1"
      have b1: "1 \<le> b" by (rule bestLength_props(1) [OF b_def])
      have "b \<le> max 1 (min (length str - i) mb)" by (rule bestLength_le [OF b_def])
      with lt have ble: "i + b \<le> length str" by auto
      have step: "safeStringChunk_loop str mb i cs =
                  safeStringChunk_loop str mb (i + b) (cs @ [take b (drop i str)])"
        by (rule loop_step [OF lt False b_def])
      from b1 lt have "length str - (i + b) < length str - i" by auto
      from less.hyps [OF this ble, of "cs @ [take b (drop i str)]"]
      obtain out where out:
        "safeStringChunk_loop str mb (i + b) (cs @ [take b (drop i str)]) =
           Inr ((cs @ [take b (drop i str)]) @ out)"
        "concat out = drop (i + b) str"
        "3 \<le> mb \<longrightarrow> (\<forall>c\<in>set out. length (encode c) \<le> mb)"
        by blast
      have cat: "take b (drop i str) @ drop (i + b) str = drop i str"
        by (metis add.commute append_take_drop_id drop_drop)
      have "safeStringChunk_loop str mb i cs = Inr (cs @ (take b (drop i str) # out))"
        using step out(1) by simp
      moreover have "concat (take b (drop i str) # out) = drop i str"
        using out(2) cat by simp
      moreover have "3 \<le> mb \<longrightarrow> (\<forall>c\<in>set (take b (drop i str) # out). length (encode c) \<le> mb)"
        using out(3) bestLength_props(2) [OF b_def] by auto
      ultimately show ?thesis by blast
    qed
  qed
qed

lemma safeStringChunk_correct:
  "\<exists>cs. safeStringChunk str mb = Inr cs \<and> concat cs = str \<and>
        (3 \<le> mb \<longrightarrow> (\<forall>c\<in>set cs. length (encode c) \<le> mb))"
  using loop_correct [of 0 str mb "[]"] by (simp add: safeStringChunk_def)

lemma chunkMessage_small:
  "length (encode (stringify m)) \<le> MAX_MESSAGE_SIZE \<Longrightarrow> chunkMessage stringify m mid = Inr [m]"
  by (simp add: chunkMessage_def needsChunking_def)

lemma chunkMessage_big:
  assumes "MAX_MESSAGE_SIZE < length (encode (stringify m))"
  shows "\<exists>cs. chunkMessage stringify m mid =
               Inr (map (\<lambda>i. chunkFrame mid i (length cs) (cs ! i) (msg_type m)) [0..<length cs]) \<and>
              concat cs = stringify m \<and> cs \<noteq> [] \<and>
              (\<forall>c\<in>set cs. length (encode c) \<le> CHUNK_SIZE)"
proof -
  obtain cs where cs: "safeStringChunk (stringify m) CHUNK_SIZE = Inr cs"
    "concat cs = stringify m" "3 \<le> CHUNK_SIZE \<longrightarrow> (\<forall>c\<in>set cs. length (encode c) \<le> CHUNK_SIZE)"
    using safeStringChunk_correct by blast
  have "stringify m \<noteq> []" using assms by (auto simp: encode_def)
  with cs(2) have "cs \<noteq> []" by auto
  moreover have "\<forall>c\<in>set cs. length (encode c) \<le> CHUNK_SIZE"
    using cs(3) by (simp add: CHUNK_SIZE_def)
  ultimately show ?thesis using assms cs(1,2)
    by (auto simp: chunkMessage_def needsChunking_def)
qed

lemma not_surrogate_cons:
  "\<not> is_high u \<Longrightarrow> \<not> is_low u \<Longrightarrow> code_points (u # us) = unat u # code_points us"
  by (cases us) simp_all

lemma ascii_not_surrogate: "u < 0x80 \<Longrightarrow> \<not> is_high u \<and> \<not> is_low u"
  by (auto simp: is_high_def is_low_def word_less_nat_alt word_le_nat_alt)

lemma ascii_Nil [simp]: "ascii []"
  by (simp add: ascii_def)

lemma ascii_Cons [simp]: "ascii (u # s) = (u < 0x80 \<and> ascii s)"
  by (simp add: ascii_def)

lemma encode_ascii_append:
  "ascii a \<Longrightarrow> encode (a @ s) = map ucast a @ encode s"
proof (induction a)
  case Nil
  then show ?case by simp
next
  case (Cons u a)
  then have u: "u < 0x80" and a: "ascii a" by simp_all
  have "unat u < 128" using u by (simp add: word_less_nat_alt)
  moreover have "code_points (u # a @ s) = unat u # code_points (a @ s)"
    using ascii_not_surrogate [OF u] by (simp add: not_surrogate_cons)
  ultimately show ?case using Cons.IH [OF a] by (simp add: encode_def utf8_def)
qed

lemma length_encode_ascii: "ascii s \<Longrightarrow> length (encode s) = length s"
  using encode_ascii_append [of s "[]"] by (simp add: encode_def)

lemma ascii_append [simp]: "ascii (a @ b) = (ascii a \<and> ascii b)"
  by (simp add: ascii_def)

lemma ascii_replicate [simp]: "u < 0x80 \<Longrightarrow> ascii (replicate n u)"
  by (simp add: ascii_def list_all_iff)

lemma ex_big_json_ascii: "ascii ex_big_json"
  unfolding ex_big_json_def by (simp add: js_def)

lemma ex_big_json_length: "length ex_big_json = 1048667"
  unfolding ex_big_json_def by (simp add: js_def)

lemma ex_small_json_bytes: "length (encode ex_small_json) = 41"
proof -
  have "ascii ex_small_json" by (simp add: ex_small_json_def js_def)
  then show ?thesis by (simp add: length_encode_ascii) (simp add: ex_small_json_def js_def)
qed


text \<open>
  Claim C4. A frame whose serialization is longer than 1 MiB in UTF-8 is turned into
  chunk frames only: with \<open>N\<close> the number of chunks, the frame at position \<open>i\<close> has
  type \<open>chunk\<close>, the message id given to \<open>chunkMessage\<close>, \<open>chunkIndex = i\<close>,
  \<open>totalChunks = N\<close> and the type of the original frame as \<open>originalType\<close>; there is
  at least one chunk and no chunk is longer than 768 KiB in UTF-8. A frame whose
  serialization is at most 1 MiB is returned as it is, alone. \<open>chunkMessage\<close> never
  throws.
\<close>

theorem chunkMessage_frames:
  "(MAX_MESSAGE_SIZE < length (encode (stringify m)) \<longrightarrow>
      (\<exists>cs. chunkMessage stringify m mid =
              Inr (map (\<lambda>i. \<lparr>msg_type = Chunk,
                             msg_data = Some (ChunkPayload
                               \<lparr>messageId = mid, chunkIndex = i, totalChunks = length cs,
                                chunk = cs ! i, originalType = msg_type m\<rparr>),
                             msg_timestamp = None\<rparr>) [0..<length cs]) \<and>
            cs \<noteq> [] \<and> (\<forall>c\<in>set cs. length (encode c) \<le> CHUNK_SIZE))) \<and>
   (length (encode (stringify m)) \<le> MAX_MESSAGE_SIZE \<longrightarrow>
      chunkMessage stringify m mid = Inr [m])"
  using chunkMessage_big [of stringify m mid] chunkMessage_small [of stringify m mid]
  by (auto simp: chunkFrame_def)

theorem chunkMessage_frames_witness:
  "MAX_MESSAGE_SIZE < length (encode ex_big_json) \<and>
   (\<exists>cs. chunkMessage (\<lambda>m. ex_big_json) ex_big_frame (js ''1700000000000-abcdefghi'') =
           Inr (map (\<lambda>i. \<lparr>msg_type = Chunk,
                          msg_data = Some (ChunkPayload
                            \<lparr>messageId = js ''1700000000000-abcdefghi'', chunkIndex = i,
                             totalChunks = length cs, chunk = cs ! i, originalType = Response\<rparr>),
                          msg_timestamp = None\<rparr>) [0..<length cs]) \<and>
         cs \<noteq> [] \<and> (\<forall>c\<in>set cs. length (encode c) \<le> CHUNK_SIZE)) \<and>
   length (encode ex_small_json) \<le> MAX_MESSAGE_SIZE \<and>
   chunkMessage (\<lambda>m. ex_small_json) ex_small_frame (js ''1700000000000-abcdefghi'') = Inr [ex_small_frame]"
proof -
  have big: "MAX_MESSAGE_SIZE < length (encode ex_big_json)"
    by (simp add: length_encode_ascii ex_big_json_ascii ex_big_json_length MAX_MESSAGE_SIZE_def)
  have small: "length (encode ex_small_json) \<le> MAX_MESSAGE_SIZE"
    by (simp add: ex_small_json_bytes MAX_MESSAGE_SIZE_def)
  have t: "msg_type ex_big_frame = Response" by (simp add: ex_big_frame_def)
  show ?thesis
    using chunkMessage_frames [of "\<lambda>m. ex_big_json" ex_big_frame "js ''1700000000000-abcdefghi''"]
      chunkMessage_frames [of "\<lambda>m. ex_small_json" ex_small_frame "js ''1700000000000-abcdefghi''"]
      big small t
    by simp
qed

section \<open>The binary search at a surrogate pair\<close>

lemma bestLengthSearch_threshold:
  "(\<forall>k. left \<le> k \<and> k \<le> right \<longrightarrow> (length (encode (take k (drop i str))) \<le> mb) = (k \<le> t)) \<Longrightarrow>
   left \<le> t + 1 \<Longrightarrow> t \<le> right \<Longrightarrow> left \<le> t \<or> best = t \<Longrightarrow> 1 \<le> left \<Longrightarrow>
   bestLengthSearch str mb i left right best = t"
proof (induction str mb i left right best rule: bestLengthSearch.induct)
  case (1 str mb i left right best)
  let ?mid = "(left + right) div 2"
  show ?case
  proof (cases "left \<le> right")
    case False
    with "1.prems" have "best = t" by auto
    with False show ?thesis by (subst bestLengthSearch.simps) simp
  next
    case lr: True
    then have mid: "left \<le> ?mid" "?mid \<le> right" by auto
    show ?thesis
    proof (cases "length (encode (take ?mid (drop i str))) \<le> mb")
      case fit: True
      with "1.prems"(1) mid have mt: "?mid \<le> t" by blast
      have "bestLengthSearch str mb i (?mid + 1) right ?mid = t"
      proof (rule "1.IH"(1) [OF lr refl refl refl])
        show "length (encode (substring str i (i + ?mid))) \<le> mb"
          using fit by (simp add: substring_take_drop)
        show "\<forall>k. ?mid + 1 \<le> k \<and> k \<le> right \<longrightarrow>
                (length (encode (take k (drop i str))) \<le> mb) = (k \<le> t)"
          using "1.prems"(1) mid by auto
        show "?mid + 1 \<le> t + 1" using mt by simp
        show "t \<le> right" by (rule "1.prems"(3))
        show "?mid + 1 \<le> t \<or> ?mid = t" using mt by auto
        show "1 \<le> ?mid + 1" by simp
      qed
      then show ?thesis using lr fit
        by (subst bestLengthSearch.simps) (simp add: Let_def substring_take_drop)
    next
      case nofit: False
      with "1.prems"(1) mid have mt: "t < ?mid" by auto
      then have m0: "?mid \<noteq> 0" by simp
      have "bestLengthSearch str mb i left (?mid - 1) best = t"
      proof (rule "1.IH"(2) [OF lr refl refl refl _ m0])
        show "\<not> length (encode (substring str i (i + ?mid))) \<le> mb"
          using nofit by (simp add: substring_take_drop)
        show "\<forall>k. left \<le> k \<and> k \<le> ?mid - 1 \<longrightarrow>
                (length (encode (take k (drop i str))) \<le> mb) = (k \<le> t)"
          using "1.prems"(1) mid by auto
        show "left \<le> t + 1" by (rule "1.prems"(2))
        show "t \<le> ?mid - 1" using mt by simp
        show "left \<le> t \<or> best = t" by (rule "1.prems"(4))
        show "1 \<le> left" by (rule "1.prems"(5))
      qed
      then show ?thesis using lr nofit m0
        by (subst bestLengthSearch.simps) (simp add: Let_def substring_take_drop)
    qed
  qed
qed

lemma high_not_low: "is_high h \<Longrightarrow> \<not> is_low h"
  by (auto simp: is_high_def is_low_def word_le_nat_alt)

lemma low_not_high: "is_low l \<Longrightarrow> \<not> is_high l"
  by (auto simp: is_high_def is_low_def word_le_nat_alt)

lemma length_encode_lone:
  "is_high u \<or> is_low u \<Longrightarrow> ascii b \<Longrightarrow> length (encode (u # b)) = 3 + length b"
proof -
  assume u: "is_high u \<or> is_low u" and b: "ascii b"
  have "code_points (u # b) = 0xFFFD # code_points b"
  proof (cases b)
    case Nil
    with u show ?thesis by simp
  next
    case (Cons v vs)
    with b have "\<not> is_low v" using ascii_not_surrogate [of v] by simp
    with u Cons show ?thesis by simp
  qed
  then show ?thesis using length_encode_ascii [OF b] by (simp add: encode_def utf8_def)
qed

lemma length_encode_pair:
  "is_high h \<Longrightarrow> is_low l \<Longrightarrow> ascii b \<Longrightarrow> length (encode (h # l # b)) = 4 + length b"
  using length_encode_ascii [of b] by (simp add: encode_def utf8_def)

lemma length_encode_ascii_app:
  "ascii a \<Longrightarrow> length (encode (a @ s)) = length a + length (encode s)"
  by (simp add: encode_ascii_append)

lemma ascii_take: "ascii b \<Longrightarrow> ascii (take n b)"
  by (auto simp: ascii_def list_all_iff dest: in_set_takeD)

lemma surrogate_split:
  assumes A: "ascii A" and B: "ascii B" and h: "is_high h" and l: "is_low l"
    and mb: "mb = length A + 3" and lenB: "length B \<le> length A"
  shows "safeStringChunk (A @ h # l # B) mb = Inr [A @ [h], l # B]"
proof -
  let ?str = "A @ h # l # B"
  let ?t = "length A + 1"
  have fits: "(length (encode (take k (drop 0 ?str))) \<le> mb) = (k \<le> ?t)" for k
  proof -
    consider "k \<le> length A" | "k = length A + 1" | "length A + 2 \<le> k" by linarith
    then show ?thesis
    proof cases
      case 1
      then have "take k ?str = take k A" by simp
      moreover have "length (encode (take k A)) = length (take k A)"
        by (rule length_encode_ascii [OF ascii_take [OF A]])
      ultimately show ?thesis using 1 mb by simp
    next
      case 2
      then have "take k ?str = A @ [h]" by simp
      then show ?thesis using 2 mb length_encode_lone [of h "[]"] h A
        by (simp add: length_encode_ascii_app)
    next
      case 3
      then have "take k ?str = A @ h # l # take (k - length A - 2) B"
        by (simp add: take_Cons' )
      then show ?thesis using 3 mb length_encode_pair [OF h l ascii_take [OF B]] A
        by (simp add: length_encode_ascii_app)
    qed
  qed
  have b: "bestLengthSearch ?str mb 0 1 (min (length ?str - 0) mb) 1 = ?t"
    by (rule bestLengthSearch_threshold) (use fits mb in auto)
  have big: "\<not> length (encode (drop 0 ?str)) \<le> mb"
    using length_encode_pair [OF h l B] A mb by (simp add: length_encode_ascii_app)
  have step: "safeStringChunk_loop ?str mb 0 [] =
              safeStringChunk_loop ?str mb (0 + ?t) ([] @ [take ?t (drop 0 ?str)])"
    by (rule loop_step [OF _ big b [symmetric]]) simp
  have rest: "drop ?t ?str = l # B" by simp
  have small: "length (encode (drop ?t ?str)) \<le> mb"
    unfolding rest using length_encode_lone [of l B] l B lenB mb by simp
  have "safeStringChunk_loop ?str mb ?t [A @ [h]] = Inr ([A @ [h]] @ [drop ?t ?str])"
    by (rule loop_done [OF _ small]) simp
  with step rest show ?thesis by (simp add: safeStringChunk_def)
qed

section \<open>The reassembler\<close>




















lemma ex_stringify_emoji: "ex_stringify ex_emoji_frame = ex_emoji_json"
proof -
  have "ex_emoji_frame \<noteq> ex_big_frame"
    by (simp add: ex_emoji_frame_def ex_big_frame_def ex_response_def js_def)
  then show ?thesis by (simp add: ex_stringify_def)
qed






lemma ex_emoji_head_facts: "ascii ex_emoji_head" "length ex_emoji_head = 786429"
  unfolding ex_emoji_head_def by (simp_all add: js_def)

lemma ex_emoji_tail_facts: "ascii ex_emoji_tail" "length ex_emoji_tail = 262164"
  unfolding ex_emoji_tail_def by (simp_all add: js_def)

text \<open>
  Claim C3 fails on the code. The binary search of \<open>safeStringChunk\<close> counts UTF-16
  code units: a prefix that ends with the high surrogate alone is measured as three
  bytes (U+FFFD) and fits where the whole pair (four bytes) does not. For
  \<open>ex_emoji_json\<close> the first chunk ends with D83D and the second starts with DE80;
  encoded one by one the two chunks have two bytes more than the serialization.
\<close>

theorem surrogate_pair_bisected:
  "needsChunking ex_emoji_json \<and>
   chunkMessage ex_stringify ex_emoji_frame ex_id =
     Inr [chunkFrame ex_id 0 2 (ex_emoji_head @ [0xD83D]) Response,
          chunkFrame ex_id 1 2 (0xDE80 # ex_emoji_tail) Response] \<and>
   encode [0xD83D, 0xDE80] = [0xF0, 0x9F, 0x9A, 0x80] \<and>
   encode [0xD83D] = [0xEF, 0xBF, 0xBD] \<and>
   length (encode (ex_emoji_head @ [0xD83D])) + length (encode (0xDE80 # ex_emoji_tail)) =
     length (encode ex_emoji_json) + 2"
proof -
  have h: "is_high 0xD83D" and l: "is_low 0xDE80" by (simp_all add: is_high_def is_low_def)
  have split: "safeStringChunk ex_emoji_json CHUNK_SIZE =
      Inr [ex_emoji_head @ [0xD83D], 0xDE80 # ex_emoji_tail]"
    unfolding ex_emoji_json_def append_Cons append_Nil
    by (rule surrogate_split [OF ex_emoji_head_facts(1) ex_emoji_tail_facts(1) h l])
       (simp_all add: ex_emoji_head_facts ex_emoji_tail_facts CHUNK_SIZE_def)
  have len: "length (encode ex_emoji_json) = 1048597"
    using length_encode_pair [OF h l ex_emoji_tail_facts(1)]
    by (simp add: ex_emoji_json_def length_encode_ascii_app ex_emoji_head_facts ex_emoji_tail_facts)
  have need: "needsChunking ex_emoji_json"
    by (simp add: needsChunking_def len MAX_MESSAGE_SIZE_def)
  have c0: "length (encode (ex_emoji_head @ [0xD83D])) = 786432"
    using length_encode_lone [of "0xD83D" "[]"] h
    by (simp add: length_encode_ascii_app ex_emoji_head_facts)
  have c1: "length (encode (0xDE80 # ex_emoji_tail)) = 262167"
    using length_encode_lone [of "0xDE80" ex_emoji_tail] l by (simp add: ex_emoji_tail_facts)
  have cm: "chunkMessage ex_stringify ex_emoji_frame ex_id =
     Inr [chunkFrame ex_id 0 2 (ex_emoji_head @ [0xD83D]) Response,
          chunkFrame ex_id 1 2 (0xDE80 # ex_emoji_tail) Response]"
    by (simp add: chunkMessage_def ex_stringify_emoji need split numeral_2_eq_2)
       (simp add: ex_emoji_frame_def)
  have e1: "encode [0xD83D, 0xDE80] = [0xF0, 0x9F, 0x9A, 0x80]"
    by (simp add: encode_def utf8_def is_high_def is_low_def)
  have e2: "encode [0xD83D] = [0xEF, 0xBF, 0xBD]"
    by (simp add: encode_def utf8_def is_high_def is_low_def)
  from need cm e1 e2 c0 c1 len show ?thesis by simp
qed

text \<open>
  Claim C2 fails on the code. \<open>receiveChunk\<close> adds one to \<open>receivedChunks\<close> on every
  arrival, also when the slot was filled before. In a message of two chunks, chunk 0
  delivered twice makes the count 2: the reassembly is triggered with slot 1 empty,
  \<open>JSON.parse\<close> is given chunk 0 alone and the entry is deleted. Chunk 1, arriving
  afterwards, starts a new entry that is never completed.
\<close>

theorem duplicate_chunk_triggers_reassembly:
  \<open>deliver parse [] [((False, 1000), ex_dup0), ((False, 1001), ex_dup0), ((False, 1002), ex_dup1)] =
     ([(js ''m1'',
        \<lparr>a_chunks = [None, Some (js ''ta":{"id":"r1"}}'')], a_totalChunks = 2,
         a_originalType = Response, receivedChunks = 1, createdAt = 1002\<rparr>)],
      [None, parse (js ''{"type":"response","da''), None])\<close>
  by (simp add: ex_dup0_def ex_dup1_def chunkFrame_def receiveChunk_def array_set_def join_def
      Let_def js_def numeral_2_eq_2)

section \<open>The circuit breaker\<close>

lemma breaker_calls_append:
  "breaker_calls (a @ b) s = breaker_calls b (breaker_calls a s)"
  by (induction a s rule: breaker_calls.induct) simp_all

lemma recordError_fields:
  "consecutiveErrors (recordError now s) = consecutiveErrors s + 1"
  "lastErrorTime (recordError now s) = now"
  "isCircuitOpen (recordError now s) = (isCircuitOpen s \<or> 5 \<le> consecutiveErrors s + 1)"
  by (auto simp: recordError_def emit_def Let_def circuitBreakerThreshold_def)

lemma recordErrors_run:
  "ts \<noteq> [] \<Longrightarrow>
   consecutiveErrors (breaker_calls (map RecordError ts) s) = consecutiveErrors s + length ts \<and>
   lastErrorTime (breaker_calls (map RecordError ts) s) = last ts \<and>
   isCircuitOpen (breaker_calls (map RecordError ts) s) =
     (isCircuitOpen s \<or> 5 \<le> consecutiveErrors s + length ts)"
proof (induction ts arbitrary: s)
  case Nil
  then show ?case by simp
next
  case (Cons t ts)
  show ?case
  proof (cases "ts = []")
    case True
    then show ?thesis by (simp add: recordError_fields)
  next
    case False
    from Cons.IH [OF False, of "recordError t s"] False show ?thesis
      by (auto simp: recordError_fields)
  qed
qed

lemma resetCircuitBreaker_fields:
  "consecutiveErrors (resetCircuitBreaker s) = 0"
  "\<not> isCircuitOpen (resetCircuitBreaker s)"
  "lastErrorTime (resetCircuitBreaker s) = 0"
  by (simp_all add: resetCircuitBreaker_def emit_def Let_def)

text \<open>
  Claim C6. From any state and after any calls, five or more calls of \<open>recordError\<close>
  in a row leave the breaker open, with the time of the last error recorded, and
  \<open>isCircuitBreakerOpen\<close> returns true as long as no more than 30000 ms have passed
  since that error. A call of \<open>recordSuccess\<close> leaves \<open>consecutiveErrors\<close> at 0 and the
  breaker closed. When the breaker is open and more than 30000 ms have passed since the
  last error, \<open>isCircuitBreakerOpen\<close> returns false and resets the breaker.
\<close>

theorem circuit_breaker:
  "(5 \<le> length ts \<longrightarrow>
      isCircuitOpen (breaker_calls (calls @ map RecordError ts) s) \<and>
      lastErrorTime (breaker_calls (calls @ map RecordError ts) s) = last ts \<and>
      (now - last ts \<le> 30000 \<longrightarrow>
         isCircuitBreakerOpen now (breaker_calls (calls @ map RecordError ts) s) =
           (True, breaker_calls (calls @ map RecordError ts) s))) \<and>
   consecutiveErrors (breaker_calls (calls @ [RecordSuccess]) s) = 0 \<and>
   \<not> isCircuitOpen (breaker_calls (calls @ [RecordSuccess]) s) \<and>
   (isCircuitOpen s \<and> now - lastErrorTime s > 30000 \<longrightarrow>
      fst (isCircuitBreakerOpen now s) = False \<and>
      consecutiveErrors (snd (isCircuitBreakerOpen now s)) = 0 \<and>
      \<not> isCircuitOpen (snd (isCircuitBreakerOpen now s)) \<and>
      snd (isCircuitBreakerOpen now s) = resetCircuitBreaker s)"
proof -
  have a: "consecutiveErrors (breaker_calls (calls @ [RecordSuccess]) s) = 0 \<and>
           \<not> isCircuitOpen (breaker_calls (calls @ [RecordSuccess]) s)"
    by (simp add: breaker_calls_append recordSuccess_def resetCircuitBreaker_fields)
  have b: "isCircuitOpen s \<and> now - lastErrorTime s > 30000 \<longrightarrow>
      fst (isCircuitBreakerOpen now s) = False \<and>
      consecutiveErrors (snd (isCircuitBreakerOpen now s)) = 0 \<and>
      \<not> isCircuitOpen (snd (isCircuitBreakerOpen now s)) \<and>
      snd (isCircuitBreakerOpen now s) = resetCircuitBreaker s"
    by (simp add: isCircuitBreakerOpen_def circuitBreakerCooldown_def resetCircuitBreaker_fields)
  have c: "5 \<le> length ts \<longrightarrow>
      isCircuitOpen (breaker_calls (calls @ map RecordError ts) s) \<and>
      lastErrorTime (breaker_calls (calls @ map RecordError ts) s) = last ts \<and>
      (now - last ts \<le> 30000 \<longrightarrow>
         isCircuitBreakerOpen now (breaker_calls (calls @ map RecordError ts) s) =
           (True, breaker_calls (calls @ map RecordError ts) s))"
  proof
    assume len: "5 \<le> length ts"
    then have ne: "ts \<noteq> []" by auto
    let ?s' = "breaker_calls (calls @ map RecordError ts) s"
    from recordErrors_run [OF ne, of "breaker_calls calls s"] len
    have op: "isCircuitOpen ?s'" and lt: "lastErrorTime ?s' = last ts"
      by (simp_all add: breaker_calls_append)
    then show "isCircuitOpen ?s' \<and> lastErrorTime ?s' = last ts \<and>
      (now - last ts \<le> 30000 \<longrightarrow> isCircuitBreakerOpen now ?s' = (True, ?s'))"
      by (simp add: isCircuitBreakerOpen_def circuitBreakerCooldown_def)
  qed
  from a b c show ?thesis by blast
qed

theorem circuit_breaker_witness:
  "5 \<le> length [1000, 2000, 3000, 4000, 5000 :: int] \<and>
   isCircuitOpen (breaker_calls (map RecordError [1000, 2000, 3000, 4000, 5000]) ex_tunnel) \<and>
   (6000::int) - last [1000, 2000, 3000, 4000, 5000] \<le> 30000 \<and>
   fst (isCircuitBreakerOpen 6000 (breaker_calls (map RecordError [1000, 2000, 3000, 4000, 5000]) ex_tunnel)) \<and>
   \<not> isCircuitOpen (breaker_calls (map RecordError [1000, 2000, 3000, 4000, 5000] @ [RecordSuccess]) ex_tunnel) \<and>
   (35001::int) - lastErrorTime (breaker_calls (map RecordError [1000, 2000, 3000, 4000, 5000]) ex_tunnel) > 30000 \<and>
   \<not> fst (isCircuitBreakerOpen 35001 (breaker_calls (map RecordError [1000, 2000, 3000, 4000, 5000]) ex_tunnel))"
proof -
  let ?ts = "[1000, 2000, 3000, 4000, 5000 :: int]"
  let ?s = "breaker_calls (map RecordError ?ts) ex_tunnel"
  have len: "5 \<le> length ?ts" by simp
  note t1 = circuit_breaker [of ?ts "[]" ex_tunnel 6000]
  note t2 = circuit_breaker [of "[]" "map RecordError ?ts" ex_tunnel 6000]
  have open5: "isCircuitOpen ?s" and last5: "lastErrorTime ?s = 5000"
    using t1 len by simp_all
  note t3 = circuit_breaker [of "[]" "[]" ?s 35001]
  from t1 len have "fst (isCircuitBreakerOpen 6000 ?s)" by simp
  moreover from t2 have "\<not> isCircuitOpen (breaker_calls (map RecordError ?ts @ [RecordSuccess]) ex_tunnel)"
    by simp
  moreover from t3 open5 last5 have "\<not> fst (isCircuitBreakerOpen 35001 ?s)" by simp
  ultimately show ?thesis using open5 last5 by simp
qed

section \<open>Responses\<close>



lemma chunkMessage_total: "\<exists>fs. chunkMessage stringify m mid = Inr fs"
  using chunkMessage_big [of stringify m mid] chunkMessage_small [of stringify m mid]
  by (cases "MAX_MESSAGE_SIZE < length (encode (stringify m))") auto

lemma chunkMessage_two:
  assumes "MAX_MESSAGE_SIZE < length (encode (stringify m))"
    and "chunkMessage stringify m mid = Inr fs"
  shows "2 \<le> length fs"
proof -
  obtain cs where cs: "chunkMessage stringify m mid =
      Inr (map (\<lambda>i. chunkFrame mid i (length cs) (cs ! i) (msg_type m)) [0..<length cs])"
    "concat cs = stringify m" "cs \<noteq> []" "\<forall>c\<in>set cs. length (encode c) \<le> CHUNK_SIZE"
    using chunkMessage_big [of stringify m mid] assms(1) by blast
  have "length cs \<noteq> 1"
  proof
    assume "length cs = 1"
    then obtain c where c: "cs = [c]" by (cases cs) auto
    with cs(2,4) have "length (encode (stringify m)) \<le> CHUNK_SIZE" by simp
    with assms(1) show False by (simp add: MAX_MESSAGE_SIZE_def CHUNK_SIZE_def)
  qed
  with cs(3) have "2 \<le> length cs" by (cases cs) (auto simp: Suc_le_eq)
  with cs(1) assms(2) show ?thesis by auto
qed

lemma sendResponse_sends:
  "\<exists>fs. chunkMessage stringify
           \<lparr>msg_type = Response, msg_data = Some (ResponseData r), msg_timestamp = None\<rparr> newId = Inr fs \<and>
        sendResponse stringify newId r s =
          s\<lparr>trace := trace s @ (if websocket s = Some OPEN then map (\<lambda>f. WsSend (stringify f)) fs else [])\<rparr>"
proof -
  let ?m = "\<lparr>msg_type = Response, msg_data = Some (ResponseData r), msg_timestamp = None\<rparr>"
  obtain fs where fs: "chunkMessage stringify ?m newId = Inr fs"
    using chunkMessage_total by blast
  show ?thesis
  proof (cases "MAX_MESSAGE_SIZE < length (encode (stringify ?m))")
    case True
    from chunkMessage_two [OF True fs] have "length fs \<noteq> 1" by simp
    with fs show ?thesis by (simp add: sendResponse_def)
  next
    case False
    then have "fs = [?m]" using fs chunkMessage_small [of stringify ?m newId] by simp
    with fs show ?thesis by (simp add: sendResponse_def)
  qed
qed

text \<open>
  Claim C10. When the socket is absent or not in the state OPEN, \<open>sendResponse\<close>
  returns the state it was given: nothing is sent, no event is emitted (the trace is
  part of the state), and the circuit breaker, the chunk table and the reconnect fields
  are as before. The state has no queue of frames to send later.
\<close>

theorem sendResponse_not_open:
  "websocket s \<noteq> Some OPEN \<Longrightarrow> sendResponse stringify newId response s = s"
  by (simp add: sendResponse_def)

theorem sendResponse_not_open_witness:
  "websocket ex_tunnel \<noteq> Some OPEN \<and>
   sendResponse (\<lambda>m. ex_big_json) (js ''1700000000000-abcdefghi'') ex_response ex_tunnel = ex_tunnel \<and>
   websocket (ex_tunnel\<lparr>websocket := Some CLOSING\<rparr>) \<noteq> Some OPEN \<and>
   sendResponse (\<lambda>m. ex_big_json) (js ''1700000000000-abcdefghi'') ex_response
     (ex_tunnel\<lparr>websocket := Some CLOSING\<rparr>) = ex_tunnel\<lparr>websocket := Some CLOSING\<rparr>"
proof -
  have a: "websocket ex_tunnel \<noteq> Some OPEN" by (simp add: ex_tunnel_def newTunnel_def)
  have b: "websocket (ex_tunnel\<lparr>websocket := Some CLOSING\<rparr>) \<noteq> Some OPEN" by simp
  from sendResponse_not_open [OF a] sendResponse_not_open [OF b] a b show ?thesis by simp
qed




lemma websocket_emit [simp]: "websocket (emit e s) = websocket s"
  by (simp add: emit_def)

lemma options_emit [simp]: "options (emit e s) = options s"
  by (simp add: emit_def)

lemma websocket_resetCircuitBreaker [simp]: "websocket (resetCircuitBreaker s) = websocket s"
  by (simp add: resetCircuitBreaker_def Let_def)

lemma options_resetCircuitBreaker [simp]: "options (resetCircuitBreaker s) = options s"
  by (simp add: resetCircuitBreaker_def Let_def)

lemma websocket_recordError [simp]: "websocket (recordError now s) = websocket s"
  by (simp add: recordError_def Let_def)

lemma options_recordError [simp]: "options (recordError now s) = options s"
  by (simp add: recordError_def Let_def)

lemma websocket_isCircuitBreakerOpen [simp]:
  "websocket (snd (isCircuitBreakerOpen now s)) = websocket s"
  by (simp add: isCircuitBreakerOpen_def)

lemma options_isCircuitBreakerOpen [simp]:
  "options (snd (isCircuitBreakerOpen now s)) = options s"
  by (simp add: isCircuitBreakerOpen_def)

lemma chunkMessage_nonempty: "chunkMessage stringify m mid = Inr fs \<Longrightarrow> fs \<noteq> []"
  using chunkMessage_big [of stringify m mid] chunkMessage_small [of stringify m mid]
  by (cases "MAX_MESSAGE_SIZE < length (encode (stringify m))") auto

text \<open>
  Claim C8. When the breaker lets the request through and the awaited call throws,
  \<open>handleProxyRequest\<close> records the error and sends a response frame on an open
  socket: after the \<open>request\<close> event and the call, the trace ends with the
  serializations of the frames that \<open>chunkMessage\<close> makes of the response (one
  or more; none when the socket is not open). The status, the message and the error
  type of the response are chosen by the first substring found in the message of the
  error, in the order \<open>timeout\<close> (504), \<open>ECONNREFUSED\<close>, \<open>ENOTFOUND\<close>,
  \<open>ECONNRESET\<close>, \<open>ENETUNREACH\<close> or \<open>EHOSTUNREACH\<close> (502 each), and 500 with
  \<open>unknown-error\<close> otherwise, also for a thrown value that is not an \<open>Error\<close>; the
  headers are \<open>Content-Type\<close>, \<open>X-Error-Type\<close> and \<open>X-Local-Server\<close>, and the
  body is the serialization of an object with the fields \<open>error\<close>, \<open>errorType\<close>,
  \<open>requestId\<close>, \<open>localServer\<close>, \<open>timestamp\<close> and \<open>details\<close>.
\<close>

theorem forward_error_response:
  assumes "\<not> fst (isCircuitBreakerOpen (env_now env) s)" and "env_outcome env = Inl error"
  shows "\<exists>status message errorType fs.
    (status, message, errorType) =
      (case error of
         NonError v \<Rightarrow> (500, js ''Internal Server Error'', js ''unknown-error'')
       | ErrorObject m \<Rightarrow>
           if str_includes m (js ''timeout'')
             then (504, js ''Gateway Timeout - Local server did not respond in time'', js ''timeout'')
           else if str_includes m (js ''ECONNREFUSED'')
             then (502, js ''Bad Gateway - Local server is not running or not accepting connections'',
                   js ''connection-refused'')
           else if str_includes m (js ''ENOTFOUND'')
             then (502, js ''Bad Gateway - Local server host not found'', js ''host-not-found'')
           else if str_includes m (js ''ECONNRESET'')
             then (502, js ''Bad Gateway - Connection was reset by local server'', js ''connection-reset'')
           else if str_includes m (js ''ENETUNREACH'') \<or> str_includes m (js ''EHOSTUNREACH'')
             then (502, js ''Bad Gateway - Local server network unreachable'', js ''network-unreachable'')
           else (500, js ''Internal Server Error'', js ''unknown-error'')) \<and>
    chunkMessage stringify
      \<lparr>msg_type = Response,
       msg_data = Some (ResponseData
         \<lparr>res_id = req_id request,
          res_status = status,
          res_headers =
            [(js ''Content-Type'', js ''application/json''),
             (js ''X-Error-Type'', errorType),
             (js ''X-Local-Server'', localServerName (options s))],
          res_body = stringifyObj (JObject
            [(js ''error'', JString message),
             (js ''errorType'', JString errorType),
             (js ''requestId'', JString (req_id request)),
             (js ''localServer'', JString (localServerName (options s))),
             (js ''timestamp'', JString (env_iso env)),
             (js ''details'', JString (case error of ErrorObject m \<Rightarrow> m | NonError v \<Rightarrow> v))]),
          res_isBase64 = None\<rparr>),
       msg_timestamp = None\<rparr> (env_newId env) = Inr fs \<and>
    fs \<noteq> [] \<and>
    handleProxyRequest stringify stringifyObj env request s =
      (let s1 = snd (isCircuitBreakerOpen (env_now env) s);
           s2 = s1\<lparr>trace := trace s1 @
                  [Emit (EvRequest (req_method request) (req_path request) (req_headers request)),
                   if isSSERequest request then HandleSSERequest request
                   else ForwardToLocalServer request]\<rparr>;
           s3 = recordError (env_now_error env) s2
       in s3\<lparr>trace := trace s3 @
            (if websocket s = Some OPEN then map (\<lambda>f. WsSend (stringify f)) fs else [])\<rparr>)"
proof -
  obtain s1 where g: "isCircuitBreakerOpen (env_now env) s = (False, s1)"
    using assms(1) by (cases "isCircuitBreakerOpen (env_now env) s") auto
  have ws1: "websocket s1 = websocket s" and op1: "options s1 = options s"
    using websocket_isCircuitBreakerOpen [of "env_now env" s]
      options_isCircuitBreakerOpen [of "env_now env" s] g by simp_all
  obtain status message errorType where c: "classifyError error = (status, message, errorType)"
    by (cases "classifyError error") auto
  define s2 where "s2 = s1\<lparr>trace := trace s1 @
                  [Emit (EvRequest (req_method request) (req_path request) (req_headers request)),
                   if isSSERequest request then HandleSSERequest request
                   else ForwardToLocalServer request]\<rparr>"
  define s3 where "s3 = recordError (env_now_error env) s2"
  have ws3: "websocket s3 = websocket s" by (simp add: s3_def s2_def ws1)
  define R where "R = forwardErrorResponse stringifyObj env (options s) request error"
  have R: "R =
         \<lparr>res_id = req_id request,
          res_status = status,
          res_headers =
            [(js ''Content-Type'', js ''application/json''),
             (js ''X-Error-Type'', errorType),
             (js ''X-Local-Server'', localServerName (options s))],
          res_body = stringifyObj (JObject
            [(js ''error'', JString message),
             (js ''errorType'', JString errorType),
             (js ''requestId'', JString (req_id request)),
             (js ''localServer'', JString (localServerName (options s))),
             (js ''timestamp'', JString (env_iso env)),
             (js ''details'', JString (case error of ErrorObject m \<Rightarrow> m | NonError v \<Rightarrow> v))]),
          res_isBase64 = None\<rparr>"
    by (simp add: R_def forwardErrorResponse_def c)
  have h: "handleProxyRequest stringify stringifyObj env request s =
      sendResponse stringify (env_newId env) R s3"
    by (simp add: handleProxyRequest_def g assms(2) Let_def s3_def s2_def op1 R_def emit_def)
  have cls: "(status, message, errorType) =
      (case error of
         NonError v \<Rightarrow> (500, js ''Internal Server Error'', js ''unknown-error'')
       | ErrorObject m \<Rightarrow>
           if str_includes m (js ''timeout'')
             then (504, js ''Gateway Timeout - Local server did not respond in time'', js ''timeout'')
           else if str_includes m (js ''ECONNREFUSED'')
             then (502, js ''Bad Gateway - Local server is not running or not accepting connections'',
                   js ''connection-refused'')
           else if str_includes m (js ''ENOTFOUND'')
             then (502, js ''Bad Gateway - Local server host not found'', js ''host-not-found'')
           else if str_includes m (js ''ECONNRESET'')
             then (502, js ''Bad Gateway - Connection was reset by local server'', js ''connection-reset'')
           else if str_includes m (js ''ENETUNREACH'') \<or> str_includes m (js ''EHOSTUNREACH'')
             then (502, js ''Bad Gateway - Local server network unreachable'', js ''network-unreachable'')
           else (500, js ''Internal Server Error'', js ''unknown-error''))"
    by (simp add: c [symmetric] classifyError_def)
  from sendResponse_sends [of stringify R "env_newId env" s3]
  obtain fs where fs: "chunkMessage stringify
           \<lparr>msg_type = Response, msg_data = Some (ResponseData R), msg_timestamp = None\<rparr>
           (env_newId env) = Inr fs"
    "sendResponse stringify (env_newId env) R s3 =
          s3\<lparr>trace := trace s3 @ (if websocket s3 = Some OPEN then map (\<lambda>f. WsSend (stringify f)) fs else [])\<rparr>"
    by blast
  have ne: "fs \<noteq> []" by (rule chunkMessage_nonempty [OF fs(1)])
  have final: "handleProxyRequest stringify stringifyObj env request s =
      (let s1 = snd (isCircuitBreakerOpen (env_now env) s);
           s2 = s1\<lparr>trace := trace s1 @
                  [Emit (EvRequest (req_method request) (req_path request) (req_headers request)),
                   if isSSERequest request then HandleSSERequest request
                   else ForwardToLocalServer request]\<rparr>;
           s3 = recordError (env_now_error env) s2
       in s3\<lparr>trace := trace s3 @
            (if websocket s = Some OPEN then map (\<lambda>f. WsSend (stringify f)) fs else [])\<rparr>)"
    unfolding h fs(2) ws3 by (simp add: g s3_def s2_def Let_def)
  from cls fs(1) ne final show ?thesis unfolding R by blast
qed


lemma num_toString_502: "num_toString 502 = js ''502''"
  by (simp add: num_toString.simps [of 502] num_toString.simps [of 50] num_toString.simps [of 5] js_def)

lemma num_toString_3000: "num_toString 3000 = js ''3000''"
  by (simp add: num_toString.simps [of 3000] num_toString.simps [of 300]
      num_toString.simps [of 30] num_toString.simps [of 3] js_def)

lemma ex_error_frame_json: "ex_stringifyFrame ex_error_frame = ex_error_json"
  by (simp add: ex_stringifyFrame_def ex_error_frame_def ex_error_json_def ex_typeName_def
      json_object_def json_quote_def num_toString_502 js_def)

lemma ex_error_json_small: "length (encode ex_error_json) \<le> MAX_MESSAGE_SIZE"
proof -
  have "ascii ex_error_json"
    by (simp add: ex_error_json_def json_quote_def js_def)
  then have "length (encode ex_error_json) = length ex_error_json"
    by (rule length_encode_ascii)
  also have "\<dots> \<le> MAX_MESSAGE_SIZE"
    by (simp add: ex_error_json_def json_quote_def js_def MAX_MESSAGE_SIZE_def)
  finally show ?thesis .
qed

theorem forward_error_response_witness:
  "\<not> fst (isCircuitBreakerOpen (env_now ex_env) (ex_tunnel\<lparr>websocket := Some OPEN\<rparr>)) \<and>
   env_outcome ex_env = Inl (ErrorObject (js ''connect ECONNREFUSED 127.0.0.1:3000'')) \<and>
   chunkMessage ex_stringifyFrame ex_error_frame (env_newId ex_env) = Inr [ex_error_frame] \<and>
   handleProxyRequest ex_stringifyFrame ex_stringifyObj ex_env ex_request
       (ex_tunnel\<lparr>websocket := Some OPEN\<rparr>) =
     ex_tunnel
       \<lparr>websocket := Some OPEN, consecutiveErrors := 1, lastErrorTime := 6100,
        trace := [Emit (EvRequest (js ''GET'') (js ''/ping'') []),
                  ForwardToLocalServer ex_request,
                  WsSend ex_error_json]\<rparr>"
proof -
  let ?s = "ex_tunnel\<lparr>websocket := Some OPEN\<rparr>"
  have a: "\<not> fst (isCircuitBreakerOpen (env_now ex_env) ?s)"
    by (simp add: isCircuitBreakerOpen_def ex_tunnel_def newTunnel_def)
  have b: "env_outcome ex_env = Inl (ErrorObject (js ''connect ECONNREFUSED 127.0.0.1:3000''))"
    by (simp add: ex_env_def)
  have l: "localServerName (options ?s) = js ''localhost:3000''"
    by (simp add: localServerName_def ex_tunnel_def newTunnel_def ex_options_def num_toString_3000)
       (simp add: js_def)
  have c: "\<not> str_includes (js ''connect ECONNREFUSED 127.0.0.1:3000'') (js ''timeout'')"
    "str_includes (js ''connect ECONNREFUSED 127.0.0.1:3000'') (js ''ECONNREFUSED'')"
    by (simp_all add: js_def)
  have small: "chunkMessage ex_stringifyFrame ex_error_frame (env_newId ex_env) = Inr [ex_error_frame]"
    using ex_error_json_small by (simp add: chunkMessage_small ex_error_frame_json)
  have sse: "\<not> isSSERequest ex_request"
    by (simp add: isSSERequest_def ex_request_def js_def)
  from forward_error_response [OF a b, where stringify = ex_stringifyFrame
      and stringifyObj = ex_stringifyObj and request = ex_request]
  obtain status message errorType fs where
    t: "(status, message, errorType) =
          (502, js ''Bad Gateway - Local server is not running or not accepting connections'',
           js ''connection-refused'')"
    and f: "chunkMessage ex_stringifyFrame
      \<lparr>msg_type = Response,
       msg_data = Some (ResponseData
         \<lparr>res_id = req_id ex_request,
          res_status = status,
          res_headers =
            [(js ''Content-Type'', js ''application/json''),
             (js ''X-Error-Type'', errorType),
             (js ''X-Local-Server'', localServerName (options ?s))],
          res_body = ex_stringifyObj (JObject
            [(js ''error'', JString message),
             (js ''errorType'', JString errorType),
             (js ''requestId'', JString (req_id ex_request)),
             (js ''localServer'', JString (localServerName (options ?s))),
             (js ''timestamp'', JString (env_iso ex_env)),
             (js ''details'', JString (js ''connect ECONNREFUSED 127.0.0.1:3000''))]),
          res_isBase64 = None\<rparr>),
       msg_timestamp = None\<rparr> (env_newId ex_env) = Inr fs"
    and h: "handleProxyRequest ex_stringifyFrame ex_stringifyObj ex_env ex_request ?s =
      (let s1 = snd (isCircuitBreakerOpen (env_now ex_env) ?s);
           s2 = s1\<lparr>trace := trace s1 @
                  [Emit (EvRequest (req_method ex_request) (req_path ex_request) (req_headers ex_request)),
                   if isSSERequest ex_request then HandleSSERequest ex_request
                   else ForwardToLocalServer ex_request]\<rparr>;
           s3 = recordError (env_now_error ex_env) s2
       in s3\<lparr>trace := trace s3 @
            (if websocket ?s = Some OPEN then map (\<lambda>f. WsSend (ex_stringifyFrame f)) fs else [])\<rparr>)"
    using c by auto
  from t have v: "status = 502"
    "message = js ''Bad Gateway - Local server is not running or not accepting connections''"
    "errorType = js ''connection-refused''" by simp_all
  have "\<lparr>msg_type = Response,
       msg_data = Some (ResponseData
         \<lparr>res_id = req_id ex_request,
          res_status = status,
          res_headers =
            [(js ''Content-Type'', js ''application/json''),
             (js ''X-Error-Type'', errorType),
             (js ''X-Local-Server'', localServerName (options ?s))],
          res_body = ex_stringifyObj (JObject
            [(js ''error'', JString message),
             (js ''errorType'', JString errorType),
             (js ''requestId'', JString (req_id ex_request)),
             (js ''localServer'', JString (localServerName (options ?s))),
             (js ''timestamp'', JString (env_iso ex_env)),
             (js ''details'', JString (js ''connect ECONNREFUSED 127.0.0.1:3000''))]),
          res_isBase64 = None\<rparr>),
       msg_timestamp = None\<rparr> = ex_error_frame"
    unfolding v l by (simp add: ex_error_frame_def ex_request_def ex_env_def)
  with f small have fs: "fs = [ex_error_frame]" by simp
  have "handleProxyRequest ex_stringifyFrame ex_stringifyObj ex_env ex_request ?s =
     ex_tunnel
       \<lparr>websocket := Some OPEN, consecutiveErrors := 1, lastErrorTime := 6100,
        trace := [Emit (EvRequest (js ''GET'') (js ''/ping'') []),
                  ForwardToLocalServer ex_request,
                  WsSend ex_error_json]\<rparr>"
    unfolding h fs
    by (simp add: sse ex_error_frame_json isCircuitBreakerOpen_def recordError_def Let_def
        circuitBreakerThreshold_def ex_tunnel_def newTunnel_def ex_env_def)
       (simp add: ex_request_def)
  with a b small show ?thesis by blast
qed

section \<open>The adaptive timeout\<close>


















section \<open>Closing the tunnel\<close>





end
